theory Spec2Isabelle
  imports Complex_Main "HOL-Library.AList"
begin

section \<open>The data buffer of gwpy.toolkits.dataviewer (buffer.py)\<close>

text \<open>
  A shallow embedding of class \<open>BufferCore\<close>. The buffer object is a record, every
  method takes the state and returns the new one, and every exception is a value.
  The classes the module imports from gwpy (channels, segments, time series) are
  not part of the module: their data are modelled as far as the module looks into
  them, and their operations are fields of a record of collaborators over which
  every general theorem is quantified.
\<close>

subsection \<open>Exceptions\<close>

datatype pyerr =
    NameError
  | UnboundLocalError
  | KeyError
  | TypeError
  | AttributeError
  | ValueError
  | FetchError string

subsection \<open>Segments\<close>

text \<open>
  GPS times are rationals. A segment is the pair of its two bounds, a segment
  list is a list of segments in the order the list holds them.
\<close>

type_synonym gps = rat
type_synonym segment = "gps \<times> gps"
type_synonym segmentlist = "segment list"

definition Segment :: "gps \<Rightarrow> gps \<Rightarrow> segment" where
  \<comment> \<open>Modelled from the spec: the bounds of an Interval are ordered,
      \<open>start \<le> end\<close>.\<close>
  "Segment a b = (if a \<le> b then (a, b) else (b, a))"

definition seg_abs :: "segment \<Rightarrow> gps" where
  \<comment> \<open>Modelled from the spec: \<open>abs(seg)\<close> is the duration of the Interval.\<close>
  "seg_abs seg = snd seg - fst seg"

definition sl_abs :: "segmentlist \<Rightarrow> gps" where
  \<comment> \<open>Modelled from the spec: \<open>abs(new)\<close>, which line 115 tests for truth where
      the spec says the missing set is non-empty, is the sum of the durations
      of the members; it is zero for the empty set.\<close>
  "sl_abs sl = sum_list (map seg_abs sl)"

definition intersects :: "segment \<Rightarrow> segment \<Rightarrow> bool" where
  \<comment> \<open>Modelled from the spec: two half-open Intervals share a point of time.\<close>
  "intersects s other = (fst other < snd s \<and> fst s < snd other)"

definition sl_extent :: "segmentlist \<Rightarrow> pyerr + segment" where
  \<comment> \<open>Modelled from the spec: the total extent is the smallest Interval
      containing all members; an empty set has none.\<close>
  "sl_extent sl =
     (case sl of
        [] \<Rightarrow> Inl ValueError
      | s # rest \<Rightarrow> Inr (foldl min (fst s) (map fst rest), foldl max (snd s) (map snd rest)))"

subsection \<open>Collaborators\<close>

text \<open>
  \<open>ChannelList.from_names\<close> is called with the names unpacked in the constructor
  (line 72) and with the whole tuple as one argument in \<open>add_channels\<close> (line 247);
  an argument is therefore one name or a tuple of names.
\<close>

datatype name_arg = Name string | NameTuple "string list"

text \<open>
  \<open>'c\<close> is a resolved channel, \<open>'s\<close> the series container stored per channel and
  \<open>'ts\<close> one chunk of it. The keyword options of \<open>fetch\<close> are forwarded verbatim
  and are part of the fetcher.
\<close>

record ('c, 's, 'ts) collab =
  from_names :: "name_arg list \<Rightarrow> 'c list"
  is_str :: "'c \<Rightarrow> bool"
  sl_and :: "segmentlist \<Rightarrow> segmentlist \<Rightarrow> segmentlist"
  sl_or :: "segmentlist \<Rightarrow> segmentlist \<Rightarrow> segmentlist"
  sl_sub :: "segmentlist \<Rightarrow> segmentlist \<Rightarrow> segmentlist"
  s_segments :: "'s \<Rightarrow> segmentlist"
  s_span :: "'s \<Rightarrow> segment"
  s_iter :: "'s \<Rightarrow> 'ts list"
  s_new :: "'s"
  s_append :: "'s \<Rightarrow> 'ts \<Rightarrow> 's"
  s_coalesce :: "'s \<Rightarrow> 's"
  ts_dt :: "'ts \<Rightarrow> gps"
  ts_span :: "'ts \<Rightarrow> segment"
  ts_crop :: "'ts \<Rightarrow> gps \<Rightarrow> gps \<Rightarrow> 'ts"
  ts_size :: "'ts \<Rightarrow> nat"
  dict_append :: "('c \<times> 's) list \<Rightarrow> ('c \<times> 's) list \<Rightarrow> ('c \<times> 's) list"
  fetch :: "'c list \<Rightarrow> gps \<Rightarrow> gps \<Rightarrow> pyerr + ('c \<times> 's) list"

subsection \<open>The buffer\<close>

text \<open>
  \<open>self.data\<close> is an ordered dictionary: an association list. The logger is
  stored and never read. The world is the buffer together with the log of the
  calls made to \<open>self.fetch\<close>, oldest first.
\<close>

record ('c, 's) buffer =
  channels :: "'c list"
  data :: "('c \<times> 's) list"

record ('c, 's) world =
  buf :: "('c, 's) buffer"
  calls :: "('c list \<times> gps \<times> gps) list"

datatype chan_arg = Str string | Strs "string list"

definition BufferCore_init :: "('c, 's, 'ts) collab \<Rightarrow> chan_arg \<Rightarrow> ('c, 's) buffer" where
  \<comment> \<open>lines 67-74\<close>
  "BufferCore_init L chans =
     (let names = (case chans of Str s \<Rightarrow> [s] | Strs l \<Rightarrow> l)
      in \<lparr>channels = from_names L (map Name names), data = []\<rparr>)"

definition coalesce :: "('c, 's, 'ts) collab \<Rightarrow> ('c, 's) buffer \<Rightarrow> ('c, 's) buffer" where
  \<comment> \<open>lines 140-144: every item of the dictionary keeps its key and its place
      and gets the coalesced value\<close>
  "coalesce L b = b\<lparr>data := map (\<lambda>(key, v). (key, s_coalesce L v)) (data b)\<rparr>"

definition append_buf :: "('c, 's, 'ts) collab \<Rightarrow> ('c \<times> 's) list \<Rightarrow> ('c, 's) buffer \<Rightarrow> ('c, 's) buffer" where
  \<comment> \<open>lines 146-149\<close>
  "append_buf L new b = b\<lparr>data := dict_append L (data b) new\<rparr>"

subsection \<open>reduce, and the dictionary lookups of a generator\<close>

fun py_reduce :: "('a \<Rightarrow> 'a \<Rightarrow> 'a) \<Rightarrow> 'a list \<Rightarrow> pyerr + 'a" where
  "py_reduce f [] = Inl TypeError"
| "py_reduce f (x # xs) = Inr (foldl f x xs)"

fun lookup_all :: "('c \<times> 's) list \<Rightarrow> 'c list \<Rightarrow> pyerr + 's list" where
  "lookup_all d [] = Inr []"
| "lookup_all d (c # cs) =
     (case map_of d c of
        None \<Rightarrow> Inl KeyError
      | Some v \<Rightarrow> (case lookup_all d cs of Inl e \<Rightarrow> Inl e | Inr vs \<Rightarrow> Inr (v # vs)))"

subsection \<open>get\<close>

datatype seg_arg =
    NoSegs
  | OneSeg gps gps
  | Flag segmentlist
  | SegList segmentlist

datatype ('c, 's) get_result = Mapping "('c \<times> 's) list" | Bare 's

definition lookup_channels :: "pyerr + 'c list" where
  \<comment> \<open>the bare name \<open>channels\<close> of lines 104, 135 and 136: \<open>get\<close> has no such
      parameter, assigns no such local, and the module has no such global\<close>
  "lookup_channels = Inl NameError"

definition normalise :: "seg_arg \<Rightarrow> segmentlist option" where
  \<comment> \<open>lines 103-108: \<open>NoSegs\<close> is \<open>None\<close>, \<open>OneSeg\<close> a segment or a pair of
      times, \<open>Flag\<close> a quality flag with its active segments, \<open>SegList\<close> anything
      else, which is taken as it is\<close>
  "normalise segments =
     (case segments of
        NoSegs \<Rightarrow> None
      | OneSeg a b \<Rightarrow> Some [Segment a b]
      | Flag active \<Rightarrow> Some active
      | SegList sl \<Rightarrow> Some sl)"

definition available :: "('c, 's, 'ts) collab \<Rightarrow> ('c, 's) buffer \<Rightarrow> pyerr + segmentlist" where
  \<comment> \<open>lines 110-111: the generator looks each channel up as \<open>reduce\<close> asks for
      it, so the first channel without an entry raises KeyError, and no channel
      at all leaves \<open>reduce\<close> with nothing to fold\<close>
  "available L b =
     (case lookup_all (data b) (channels b) of
        Inl e \<Rightarrow> Inl e
      | Inr vs \<Rightarrow> py_reduce (sl_and L) (map (s_segments L) vs))"

definition missing :: "('c, 's, 'ts) collab \<Rightarrow> ('c, 's) buffer \<Rightarrow> segmentlist \<Rightarrow> pyerr + segmentlist" where
  \<comment> \<open>line 112\<close>
  "missing L b segments =
     (case available L b of Inl e \<Rightarrow> Inl e | Inr av \<Rightarrow> Inr (sl_sub L segments av))"

fun fill :: "('c, 's, 'ts) collab \<Rightarrow> segmentlist \<Rightarrow> ('c, 's) world \<Rightarrow> (pyerr + unit) \<times> ('c, 's) world" where
  \<comment> \<open>lines 116-119\<close>
  "fill L [] w = (Inr (), w)"
| "fill L (seg # rest) w =
     (let w1 = w\<lparr>calls := calls w @ [(channels (buf w), fst seg, snd seg)]\<rparr>
      in case fetch L (channels (buf w)) (fst seg) (snd seg) of
           Inl e \<Rightarrow> (Inl e, w1)
         | Inr d \<Rightarrow> fill L rest (w1\<lparr>buf := coalesce L (append_buf L d (buf w1))\<rparr>))"

definition crop_step :: "('c, 's, 'ts) collab \<Rightarrow> 'ts \<Rightarrow> 's \<Rightarrow> segment \<Rightarrow> 's" where
  \<comment> \<open>lines 127-133\<close>
  "crop_step L ts acc seg =
     (if seg_abs seg < ts_dt L ts then acc
      else if intersects (ts_span L ts) seg then
        (let cropped = ts_crop L ts (fst seg) (snd seg)
         in if ts_size L cropped \<noteq> 0 then s_append L acc cropped else acc)
      else acc)"

definition channel_out :: "('c, 's, 'ts) collab \<Rightarrow> segmentlist \<Rightarrow> 's \<Rightarrow> 's" where
  \<comment> \<open>lines 124-134, for one channel\<close>
  "channel_out L segments series =
     s_coalesce L (foldl (\<lambda>acc ts. foldl (crop_step L ts) acc segments) (s_new L) (s_iter L series))"

fun build_out :: "('c, 's, 'ts) collab \<Rightarrow> segmentlist \<Rightarrow> ('c \<times> 's) list \<Rightarrow> 'c list \<Rightarrow> ('c \<times> 's) list
    \<Rightarrow> pyerr + ('c \<times> 's) list" where
  \<comment> \<open>lines 122-134\<close>
  "build_out L segments d [] out = Inr out"
| "build_out L segments d (channel # cs) out =
     (case map_of d channel of
        None \<Rightarrow> Inl KeyError
      | Some series \<Rightarrow> build_out L segments d cs (AList.update channel (channel_out L segments series) out))"

definition get_return :: "('c, 's, 'ts) collab \<Rightarrow> 'c list \<Rightarrow> ('c \<times> 's) list \<Rightarrow> pyerr + ('c, 's) get_result" where
  \<comment> \<open>lines 135-138: \<open>channel\<close> is the variable of the loop of line 123, so the
      last channel of the buffer\<close>
  "get_return L chans out =
     (case chans of
        [] \<Rightarrow> Inl UnboundLocalError
      | _ \<Rightarrow>
        if is_str L (last chans) then
          (case lookup_channels of
             Inl e \<Rightarrow> Inl e
           | Inr (cs :: 'c list) \<Rightarrow>
               if length cs = 1 then
                 (case map_of out (cs ! 0) of None \<Rightarrow> Inl KeyError | Some v \<Rightarrow> Inr (Bare v))
               else Inr (Mapping out))
        else Inr (Mapping out))"

definition get :: "('c, 's, 'ts) collab \<Rightarrow> seg_arg \<Rightarrow> bool \<Rightarrow> ('c, 's) world
    \<Rightarrow> (pyerr + ('c, 's) get_result) \<times> ('c, 's) world" where
  \<comment> \<open>lines 76-138\<close>
  "get L segments do_fetch w =
     (case normalise segments of
        None \<Rightarrow>
          (case lookup_channels of
             Inl e \<Rightarrow> (Inl e, w)
           | Inr (cs :: 'c list) \<Rightarrow>
               (case lookup_all (data (buf w)) cs of
                  Inl e \<Rightarrow> (Inl e, w)
                | Inr vs \<Rightarrow> (Inr (Mapping (zip cs vs)), w)))
      | Some segs \<Rightarrow>
          (case missing L (buf w) segs of
             Inl e \<Rightarrow> (Inl e, w)
           | Inr new \<Rightarrow>
               (case (if do_fetch \<and> sl_abs new \<noteq> 0 then fill L new w else (Inr (), w)) of
                  (Inl e, w1) \<Rightarrow> (Inl e, w1)
                | (Inr u, w1) \<Rightarrow>
                    (case build_out L segs (data (buf w1)) (channels (buf w1)) [] of
                       Inl e \<Rightarrow> (Inl e, w1)
                     | Inr out \<Rightarrow> (get_return L (channels (buf w1)) out, w1)))))"

subsection \<open>The derived properties segments and extent\<close>

definition segments :: "('c, 's, 'ts) collab \<Rightarrow> ('c, 's) buffer \<Rightarrow> pyerr + segmentlist" where
  \<comment> \<open>lines 173-184: the TypeError of the fold is caught, nothing else is\<close>
  "segments L b =
     (case py_reduce (sl_or L) (map (\<lambda>tsl. [s_span L tsl]) (map snd (data b))) of
        Inl e \<Rightarrow> (if e = TypeError then Inr [] else Inl e)
      | Inr sl \<Rightarrow> Inr sl)"

definition extent :: "('c, 's, 'ts) collab \<Rightarrow> ('c, 's) buffer \<Rightarrow> pyerr + segment" where
  \<comment> \<open>lines 186-198\<close>
  "extent L b =
     (case segments L b of
        Inl e \<Rightarrow> Inl e
      | Inr sl \<Rightarrow> (case sl_extent sl of Inl e \<Rightarrow> Inl e | Inr (a, b) \<Rightarrow> Inr (Segment a b)))"

subsection \<open>start and end\<close>

text \<open>
  Lines 200-230 define four functions, two named \<open>start\<close> and two named \<open>end\<close>,
  each under the decorator \<open>@property\<close>. The class body binds the names in the
  order of the text, a later binding of a name replacing the earlier one, and
  \<open>property(f)\<close> is a property with the getter \<open>f\<close> and no setter.
\<close>

datatype pyfunc = start_getter | start_extend | end_getter | end_extend

record pyproperty =
  fget :: pyfunc
  fset :: "pyfunc option"

definition property :: "pyfunc \<Rightarrow> pyproperty" where
  "property f = \<lparr>fget = f, fset = None\<rparr>"

definition class_body :: "(string \<times> pyproperty) list" where
  "class_body =
     [(''start'', property start_getter),
      (''start'', property start_extend),
      (''end'', property end_getter),
      (''end'', property end_extend)]"

definition class_attr :: "string \<Rightarrow> pyproperty option" where
  "class_attr name = map_of (rev class_body) name"

definition read_attr :: "('c, 's, 'ts) collab \<Rightarrow> string \<Rightarrow> ('c, 's) buffer \<Rightarrow> pyerr + gps" where
  \<comment> \<open>\<open>self.start\<close>, \<open>self.end\<close>: the getter of the property is called with
      \<open>self\<close> alone; lines 204 and 220 are the bodies of the one-parameter
      functions, the two-parameter functions lack their argument \<open>t\<close>\<close>
  "read_attr L name b =
     (case class_attr name of
        None \<Rightarrow> Inl AttributeError
      | Some p \<Rightarrow>
          (case fget p of
             start_getter \<Rightarrow> (case extent L b of Inl e \<Rightarrow> Inl e | Inr seg \<Rightarrow> Inr (fst seg))
           | end_getter \<Rightarrow> (case extent L b of Inl e \<Rightarrow> Inl e | Inr seg \<Rightarrow> Inr (snd seg))
           | start_extend \<Rightarrow> Inl TypeError
           | end_extend \<Rightarrow> Inl TypeError))"

definition warn :: "pyerr + unit" where
  \<comment> \<open>\<open>warnings.warn\<close> of lines 211 and 227: the module never imports
      \<open>warnings\<close> (lines 22-39)\<close>
  "warn = Inl NameError"

definition start_extend_body :: "('c, 's, 'ts) collab \<Rightarrow> gps \<Rightarrow> ('c, 's) world \<Rightarrow> (pyerr + unit) \<times> ('c, 's) world" where
  \<comment> \<open>lines 207-214; the value \<open>fetch\<close> returns is dropped\<close>
  "start_extend_body L t w =
     (case read_attr L ''end'' (buf w) of
        Inl e \<Rightarrow> (Inl e, w)
      | Inr e1 \<Rightarrow>
          if t \<ge> e1 then (Inl ValueError, w)
          else
            (case read_attr L ''start'' (buf w) of
               Inl e \<Rightarrow> (Inl e, w)
             | Inr s1 \<Rightarrow>
                 if t \<ge> s1 then (warn, w)
                 else
                   (let w1 = w\<lparr>calls := calls w @ [(channels (buf w), t, s1)]\<rparr>
                    in case fetch L (channels (buf w)) t s1 of
                         Inl e \<Rightarrow> (Inl e, w1)
                       | Inr d \<Rightarrow> (Inr (), w1))))"

definition end_extend_body :: "('c, 's, 'ts) collab \<Rightarrow> gps \<Rightarrow> ('c, 's) world \<Rightarrow> (pyerr + unit) \<times> ('c, 's) world" where
  \<comment> \<open>lines 223-230; the value \<open>fetch\<close> returns is dropped\<close>
  "end_extend_body L t w =
     (case read_attr L ''start'' (buf w) of
        Inl e \<Rightarrow> (Inl e, w)
      | Inr s1 \<Rightarrow>
          if t \<le> s1 then (Inl ValueError, w)
          else
            (case read_attr L ''end'' (buf w) of
               Inl e \<Rightarrow> (Inl e, w)
             | Inr e1 \<Rightarrow>
                 if t \<le> e1 then (warn, w)
                 else
                   (let w1 = w\<lparr>calls := calls w @ [(channels (buf w), e1, t)]\<rparr>
                    in case fetch L (channels (buf w)) e1 t of
                         Inl e \<Rightarrow> (Inl e, w1)
                       | Inr d \<Rightarrow> (Inr (), w1))))"

definition assign_attr :: "('c, 's, 'ts) collab \<Rightarrow> string \<Rightarrow> gps \<Rightarrow> ('c, 's) world \<Rightarrow> (pyerr + unit) \<times> ('c, 's) world" where
  \<comment> \<open>\<open>buffer.start = t\<close>, \<open>buffer.end = t\<close>: an assignment to a property calls
      its setter, and a property without a setter refuses the assignment\<close>
  "assign_attr L name t w =
     (case class_attr name of
        None \<Rightarrow> (Inr (), w)
      | Some p \<Rightarrow>
          (case fset p of
             None \<Rightarrow> (Inl AttributeError, w)
           | Some start_extend \<Rightarrow> start_extend_body L t w
           | Some end_extend \<Rightarrow> end_extend_body L t w
           | Some m \<Rightarrow> (Inl TypeError, w)))"

subsection \<open>add_channels\<close>

fun add_new :: "'c list \<Rightarrow> 'c list \<Rightarrow> 'c list \<Rightarrow> 'c list \<times> 'c list" where
  \<comment> \<open>lines 248-252: the pair of \<open>new\<close> and \<open>self.channels\<close>\<close>
  "add_new [] new chans = (new, chans)"
| "add_new (c # cs) new chans =
     (if c \<notin> set chans then add_new cs (new @ [c]) (chans @ [c]) else add_new cs new chans)"

fun fetch_each :: "('c, 's, 'ts) collab \<Rightarrow> 'c list \<Rightarrow> segmentlist \<Rightarrow> ('c, 's) world \<Rightarrow> (pyerr + unit) \<times> ('c, 's) world" where
  \<comment> \<open>lines 254-255; the value \<open>fetch\<close> returns is dropped\<close>
  "fetch_each L new [] w = (Inr (), w)"
| "fetch_each L new (seg # rest) w =
     (let w1 = w\<lparr>calls := calls w @ [(new, fst seg, snd seg)]\<rparr>
      in case fetch L new (fst seg) (snd seg) of
           Inl e \<Rightarrow> (Inl e, w1)
         | Inr d \<Rightarrow> fetch_each L new rest w1)"

definition add_channels :: "('c, 's, 'ts) collab \<Rightarrow> string list \<Rightarrow> ('c, 's) world \<Rightarrow> (pyerr + unit) \<times> ('c, 's) world" where
  \<comment> \<open>lines 235-255\<close>
  "add_channels L names w =
     (case add_new (from_names L [NameTuple names]) [] (channels (buf w)) of
        (new, chans) \<Rightarrow>
          (let w1 = w\<lparr>buf := (buf w)\<lparr>channels := chans\<rparr>\<rparr>
           in case segments L (buf w1) of
                Inl e \<Rightarrow> (Inl e, w1)
              | Inr segs \<Rightarrow> fetch_each L new segs w1))"

section \<open>Reference collaborators\<close>

text \<open>
  One concrete choice of the collaborators, on which the general theorems are
  run: channels are their names, a chunk is the interval it covers with its
  sample spacing, a series container is the list of its chunks.
\<close>

datatype channel = Channel string

record chunk =
  span :: segment
  dt :: gps

fun merge_segs :: "segmentlist \<Rightarrow> segmentlist" where
  "merge_segs [] = []"
| "merge_segs [a] = [a]"
| "merge_segs (a # b # rest) =
     (if fst b \<le> snd a then merge_segs ((fst a, max (snd a) (snd b)) # rest)
      else a # merge_segs (b # rest))"

definition sl_coalesce :: "segmentlist \<Rightarrow> segmentlist" where
  \<comment> \<open>Modelled from the spec: an IntervalSet is sorted, and no two of its
      elements touch or overlap.\<close>
  "sl_coalesce sl = merge_segs (sort_key fst sl)"

definition ref_or :: "segmentlist \<Rightarrow> segmentlist \<Rightarrow> segmentlist" where
  \<comment> \<open>Modelled from the spec: the union of two IntervalSets.\<close>
  "ref_or a b = sl_coalesce (a @ b)"

definition ref_and :: "segmentlist \<Rightarrow> segmentlist \<Rightarrow> segmentlist" where
  \<comment> \<open>Modelled from the spec: the intersection of two IntervalSets.\<close>
  "ref_and a b =
     sl_coalesce (concat (map (\<lambda>x. concat (map (\<lambda>y.
        if max (fst x) (fst y) < min (snd x) (snd y)
        then [(max (fst x) (fst y), min (snd x) (snd y))] else []) b)) a))"

definition seg_minus :: "segment \<Rightarrow> segment \<Rightarrow> segmentlist" where
  "seg_minus x y =
     (if intersects x y then
        (if fst x < fst y then [(fst x, fst y)] else []) @
        (if snd y < snd x then [(snd y, snd x)] else [])
      else [x])"

definition ref_sub :: "segmentlist \<Rightarrow> segmentlist \<Rightarrow> segmentlist" where
  \<comment> \<open>Modelled from the spec: the difference of two IntervalSets.\<close>
  "ref_sub a b = sl_coalesce (foldl (\<lambda>acc y. concat (map (\<lambda>x. seg_minus x y) acc)) a b)"

fun merge_chunks :: "chunk list \<Rightarrow> chunk list" where
  "merge_chunks [] = []"
| "merge_chunks [a] = [a]"
| "merge_chunks (a # b # rest) =
     (if dt b = dt a \<and> fst (span b) \<le> snd (span a)
      then merge_chunks (a\<lparr>span := (fst (span a), max (snd (span a)) (snd (span b)))\<rparr> # rest)
      else a # merge_chunks (b # rest))"

definition ref_coalesce :: "chunk list \<Rightarrow> chunk list" where
  \<comment> \<open>Modelled from the spec: the Series Container's coalesce sorts the chunks
      by start time and merges overlapping or adjacent chunks of identical
      sampling; chunks of different \<open>dt\<close> are never merged.\<close>
  "ref_coalesce tsl = merge_chunks (sort_key (\<lambda>ts. fst (span ts)) tsl)"

definition ref_span :: "chunk list \<Rightarrow> segment" where
  \<comment> \<open>Modelled from the spec: the extent of a channel's series, from its first
      chunk's start to its last chunk's end.\<close>
  "ref_span tsl = (case sl_extent (map span tsl) of Inl e \<Rightarrow> (0, 0) | Inr seg \<Rightarrow> seg)"

definition ref_crop :: "chunk \<Rightarrow> gps \<Rightarrow> gps \<Rightarrow> chunk" where
  \<comment> \<open>Modelled from the spec: cropping a chunk to a sub-interval.\<close>
  "ref_crop ts a b = ts\<lparr>span := (max (fst (span ts)) a, min (snd (span ts)) b)\<rparr>"

definition ref_size :: "chunk \<Rightarrow> nat" where
  \<comment> \<open>Modelled from the spec: a chunk covers \<open>dt * length\<close>.\<close>
  "ref_size ts = (if dt ts \<le> 0 then 0 else nat \<lfloor>seg_abs (span ts) / dt ts\<rfloor>)"

definition ref_dict_append :: "(channel \<times> chunk list) list \<Rightarrow> (channel \<times> chunk list) list
    \<Rightarrow> (channel \<times> chunk list) list" where
  \<comment> \<open>Modelled from the spec: append merges fetched per-channel series into the
      per-channel containers by concatenation.\<close>
  "ref_dict_append d new =
     foldl (\<lambda>acc (k, v). case map_of acc k of
                             None \<Rightarrow> acc @ [(k, v)]
                           | Some old \<Rightarrow> AList.update k (old @ v) acc) d new"

definition ref_from_names :: "name_arg list \<Rightarrow> channel list" where
  \<comment> \<open>Modelled from the spec: the Channel Resolver maps name strings to channel
      descriptors.\<close>
  "ref_from_names args =
     concat (map (\<lambda>a. case a of Name s \<Rightarrow> [Channel s] | NameTuple l \<Rightarrow> map Channel l) args)"

definition ref_collab :: "(channel list \<Rightarrow> gps \<Rightarrow> gps \<Rightarrow> pyerr + (channel \<times> chunk list) list)
    \<Rightarrow> (channel, chunk list, chunk) collab" where
  "ref_collab fetcher =
     \<lparr>from_names = ref_from_names,
      is_str = (\<lambda>c. False),
      sl_and = ref_and,
      sl_or = ref_or,
      sl_sub = ref_sub,
      s_segments = map span,
      s_span = ref_span,
      s_iter = (\<lambda>tsl. tsl),
      s_new = [],
      s_append = (\<lambda>tsl ts. tsl @ [ts]),
      s_coalesce = ref_coalesce,
      ts_dt = dt,
      ts_span = span,
      ts_crop = ref_crop,
      ts_size = ref_size,
      dict_append = ref_dict_append,
      fetch = fetcher\<rparr>"

definition full_fetch :: "channel list \<Rightarrow> gps \<Rightarrow> gps \<Rightarrow> pyerr + (channel \<times> chunk list) list" where
  \<comment> \<open>a fetcher that honours its contract: one chunk over the whole range for
      each channel asked for\<close>
  "full_fetch chans a b = Inr (map (\<lambda>c. (c, [\<lparr>span = (a, b), dt = 1\<rparr>])) chans)"

definition failing_from :: "gps \<Rightarrow> channel list \<Rightarrow> gps \<Rightarrow> gps \<Rightarrow> pyerr + (channel \<times> chunk list) list" where
  \<comment> \<open>a fetcher whose source has nothing from the time \<open>limit\<close> on\<close>
  "failing_from limit chans a b =
     (if limit \<le> a then Inl (FetchError ''no data'') else full_fetch chans a b)"

section \<open>Properties\<close>

subsection \<open>Helper lemmas\<close>

lemma coalesce_channels: "channels (coalesce L b) = channels b"
  by (simp add: coalesce_def)

lemma append_channels: "channels (append_buf L d b) = channels b"
  by (simp add: append_buf_def)

lemma foldl_step_channels:
  "channels (foldl (\<lambda>b seg. coalesce L (append_buf L (res seg) b)) b0 pre) = channels b0"
  by (induction pre arbitrary: b0) (simp_all add: coalesce_channels append_channels)

lemma fill_prefix:
  "\<forall>seg \<in> set pre. fetch L (channels (buf w)) (fst seg) (snd seg) = Inr (res seg) \<Longrightarrow>
   fill L (pre @ post) w =
     fill L post (w\<lparr>buf := foldl (\<lambda>b seg. coalesce L (append_buf L (res seg) b)) (buf w) pre,
                    calls := calls w @ map (\<lambda>seg. (channels (buf w), fst seg, snd seg)) pre\<rparr>)"
proof (induction pre arbitrary: w)
  case Nil
  then show ?case by simp
next
  case (Cons seg pre)
  let ?w1 = "w\<lparr>calls := calls w @ [(channels (buf w), fst seg, snd seg)],
               buf := coalesce L (append_buf L (res seg) (buf w))\<rparr>"
  have "\<forall>s \<in> set pre. fetch L (channels (buf ?w1)) (fst s) (snd s) = Inr (res s)"
    using Cons.prems by (simp add: coalesce_channels append_channels)
  from Cons.IH [OF this] show ?case
    using Cons.prems by (simp add: Let_def coalesce_channels append_channels)
qed

lemma fill_calls:
  "\<exists>n. calls (snd (fill L new w)) =
         calls w @ map (\<lambda>seg. (channels (buf w), fst seg, snd seg)) (take n new)"
proof (induction new arbitrary: w)
  case Nil
  then show ?case by simp
next
  case (Cons seg new)
  show ?case
  proof (cases "fetch L (channels (buf w)) (fst seg) (snd seg)")
    case (Inl e)
    then have "calls (snd (fill L (seg # new) w)) =
        calls w @ map (\<lambda>seg. (channels (buf w), fst seg, snd seg)) (take 1 (seg # new))"
      by (simp add: Let_def)
    then show ?thesis by blast
  next
    case (Inr d)
    let ?w1 = "w\<lparr>calls := calls w @ [(channels (buf w), fst seg, snd seg)],
                 buf := coalesce L (append_buf L d (buf w))\<rparr>"
    obtain n where n: "calls (snd (fill L new ?w1)) =
        calls ?w1 @ map (\<lambda>seg. (channels (buf ?w1), fst seg, snd seg)) (take n new)"
      using Cons.IH [of ?w1] by blast
    have "calls (snd (fill L (seg # new) w)) =
        calls w @ map (\<lambda>seg. (channels (buf w), fst seg, snd seg)) (take (Suc n) (seg # new))"
      using n Inr by (simp add: Let_def coalesce_channels append_channels)
    then show ?thesis by blast
  qed
qed

lemma fill_calls_pos:
  "new \<noteq> [] \<Longrightarrow> \<exists>n. 0 < n \<and> calls (snd (fill L new w)) =
         calls w @ map (\<lambda>seg. (channels (buf w), fst seg, snd seg)) (take n new)"
proof (cases new)
  case Nil
  then show "new \<noteq> [] \<Longrightarrow> ?thesis" by simp
next
  case (Cons seg rest)
  show ?thesis
  proof (cases "fetch L (channels (buf w)) (fst seg) (snd seg)")
    case (Inl e)
    then have "calls (snd (fill L new w)) =
        calls w @ map (\<lambda>seg. (channels (buf w), fst seg, snd seg)) (take 1 new)"
      using Cons by (simp add: Let_def)
    then show ?thesis by (intro exI [of _ 1]) simp
  next
    case (Inr d)
    let ?w1 = "w\<lparr>calls := calls w @ [(channels (buf w), fst seg, snd seg)],
                 buf := coalesce L (append_buf L d (buf w))\<rparr>"
    obtain n where n: "calls (snd (fill L rest ?w1)) =
        calls ?w1 @ map (\<lambda>seg. (channels (buf ?w1), fst seg, snd seg)) (take n rest)"
      using fill_calls [of L rest ?w1] by blast
    have "calls (snd (fill L new w)) =
        calls w @ map (\<lambda>seg. (channels (buf w), fst seg, snd seg)) (take (Suc n) new)"
      using n Inr Cons by (simp add: Let_def coalesce_channels append_channels)
    then show ?thesis by (intro exI [of _ "Suc n"]) simp
  qed
qed

lemma fill_calls_all:
  assumes "\<forall>seg \<in> set new. \<exists>d. fetch L (channels (buf w)) (fst seg) (snd seg) = Inr d"
  shows "calls (snd (fill L new w)) =
           calls w @ map (\<lambda>seg. (channels (buf w), fst seg, snd seg)) new"
proof -
  obtain res where res: "\<forall>seg \<in> set new. fetch L (channels (buf w)) (fst seg) (snd seg) = Inr (res seg)"
    using bchoice [OF assms] by blast
  show ?thesis using fill_prefix [OF res, of "[]"] by simp
qed

lemma sl_abs_nonzero_nonempty: "sl_abs new \<noteq> 0 \<Longrightarrow> new \<noteq> []"
  by (auto simp: sl_abs_def)

lemma lookup_all_the:
  "\<forall>k \<in> set cs. map_of d k \<noteq> None \<Longrightarrow> lookup_all d cs = Inr (map (\<lambda>k. the (map_of d k)) cs)"
  by (induction cs) auto

lemma available_fold:
  assumes "channels b = c # cs" and "\<forall>k \<in> set (c # cs). map_of (data b) k \<noteq> None"
  shows "available L b =
     Inr (foldl (sl_and L) (s_segments L (the (map_of (data b) c)))
            (map (\<lambda>k. s_segments L (the (map_of (data b) k))) cs))"
  using assms lookup_all_the [of "c # cs" "data b"]
  by (simp add: available_def comp_def)

lemma get_return_not_bare: "get_return L chans out \<noteq> Inr (Bare v)"
  by (simp add: get_return_def lookup_channels_def split: list.split)

lemma fetch_each_data: "data (buf (snd (fetch_each L new segs w))) = data (buf w)"
  by (induction segs arbitrary: w) (simp_all add: Let_def split: sum.split)

lemma read_attr_type_error:
  "read_attr L ''start'' b = Inl TypeError \<and> read_attr L ''end'' b = Inl TypeError"
  by (simp add: read_attr_def class_attr_def class_body_def property_def)

lemma extend_bodies_type_error:
  "start_extend_body L t w = (Inl TypeError, w) \<and> end_extend_body L t w = (Inl TypeError, w)"
  by (simp add: start_extend_body_def end_extend_body_def read_attr_type_error)

lemma merge_chunks_hd:
  "xs \<noteq> [] \<Longrightarrow> merge_chunks xs \<noteq> [] \<and> dt (hd (merge_chunks xs)) = dt (hd xs)
     \<and> fst (span (hd (merge_chunks xs))) = fst (span (hd xs))"
  by (induction xs rule: merge_chunks.induct) auto

lemma merge_chunks_starts:
  "set (map (\<lambda>ts. fst (span ts)) (merge_chunks xs)) \<subseteq> set (map (\<lambda>ts. fst (span ts)) xs)"
  by (induction xs rule: merge_chunks.induct) auto

lemma merge_chunks_sorted:
  "sorted (map (\<lambda>ts. fst (span ts)) xs) \<Longrightarrow> sorted (map (\<lambda>ts. fst (span ts)) (merge_chunks xs))"
proof (induction xs rule: merge_chunks.induct)
  case (3 a b rest)
  show ?case
  proof (cases "dt b = dt a \<and> fst (span b) \<le> snd (span a)")
    case True
    have "sorted (map (\<lambda>ts. fst (span ts)) (a\<lparr>span := (fst (span a), max (snd (span a)) (snd (span b)))\<rparr> # rest))"
      using "3.prems" by auto
    then show ?thesis using True "3.IH"(1) by simp
  next
    case False
    have s: "sorted (map (\<lambda>ts. fst (span ts)) (merge_chunks (b # rest)))"
      using False "3.IH"(2) "3.prems" by simp
    have "\<forall>x \<in> set (map (\<lambda>ts. fst (span ts)) (merge_chunks (b # rest))). fst (span a) \<le> x"
      using merge_chunks_starts [of "b # rest"] "3.prems" by auto
    then show ?thesis using False s by auto
  qed
qed simp_all

lemma merge_chunks_idem: "merge_chunks (merge_chunks xs) = merge_chunks xs"
proof (induction xs rule: merge_chunks.induct)
  case (3 a b rest)
  show ?case
  proof (cases "dt b = dt a \<and> fst (span b) \<le> snd (span a)")
    case True
    then show ?thesis using "3.IH"(1) by simp
  next
    case False
    obtain b' rest' where m: "merge_chunks (b # rest) = b' # rest'"
      using merge_chunks_hd [of "b # rest"] by (cases "merge_chunks (b # rest)") auto
    have hd: "dt b' = dt b \<and> fst (span b') = fst (span b)"
      using merge_chunks_hd [of "b # rest"] m by simp
    have "merge_chunks (a # b' # rest') = a # merge_chunks (b' # rest')"
      using False hd by auto
    then show ?thesis using False m "3.IH"(2) by auto
  qed
qed simp_all

lemma ref_coalesce_idem: "ref_coalesce (ref_coalesce tsl) = ref_coalesce tsl"
proof -
  have "sorted (map (\<lambda>ts. fst (span ts)) (merge_chunks (sort_key (\<lambda>ts. fst (span ts)) tsl)))"
    by (rule merge_chunks_sorted) simp
  then have "sort_key (\<lambda>ts. fst (span ts)) (merge_chunks (sort_key (\<lambda>ts. fst (span ts)) tsl))
      = merge_chunks (sort_key (\<lambda>ts. fst (span ts)) tsl)"
    by (rule sort_key_id_if_sorted)
  then show ?thesis by (simp add: ref_coalesce_def merge_chunks_idem)
qed

subsection \<open>get\<close>

text \<open>
  C10. A call of \<open>get\<close> with \<open>fetch=False\<close> makes no call to the fetcher and leaves
  the buffer as it was, channels and data, whatever the segments argument and
  whether or not the call raises.
\<close>

theorem get_no_fetch_frame: "snd (get L arg False w) = w"
  by (simp add: get_def split: option.split sum.split prod.split)

text \<open>
  C6, as the code has it. With the segments argument absent, line 104 reads the
  name \<open>channels\<close>, which \<open>get\<close> does not have: the call raises NameError, for
  every buffer, and returns no buffered content. It makes no call to the fetcher
  and changes nothing.
\<close>

theorem get_no_segments_raises: "get L NoSegs do_fetch w = (Inl NameError, w)"
  by (simp add: get_def normalise_def lookup_channels_def)

text \<open>
  C4, as the code has it. \<open>get\<close> never returns a bare series container, however
  the buffer was constructed: line 135 tests the last channel of the buffer, a
  resolved channel and not a string, and where that test succeeds the name
  \<open>channels\<close> of the same line is unbound. A buffer constructed from the single
  string X and holding data for X answers with a mapping of one entry.
\<close>

theorem get_never_bare:
  "fst (get L arg do_fetch w) \<noteq> Inr (Bare v)
   \<and> get (ref_collab full_fetch) (SegList [(12, 18)]) False
        \<lparr>buf = (BufferCore_init (ref_collab full_fetch) (Str ''X''))
                 \<lparr>data := [(Channel ''X'', [\<lparr>span = (10, 20), dt = 1\<rparr>])]\<rparr>,
         calls = []\<rparr>
     = (Inr (Mapping [(Channel ''X'', [\<lparr>span = (12, 18), dt = 1\<rparr>])]),
        \<lparr>buf = \<lparr>channels = [Channel ''X''], data = [(Channel ''X'', [\<lparr>span = (10, 20), dt = 1\<rparr>])]\<rparr>,
         calls = []\<rparr>)"
proof -
  have "fst (get L arg do_fetch w) \<noteq> Inr (Bare v)"
    by (simp add: get_def lookup_channels_def get_return_not_bare
      split: option.split sum.split prod.split)
  moreover have "get (ref_collab full_fetch) (SegList [(12, 18)]) False
        \<lparr>buf = (BufferCore_init (ref_collab full_fetch) (Str ''X''))
                 \<lparr>data := [(Channel ''X'', [\<lparr>span = (10, 20), dt = 1\<rparr>])]\<rparr>,
         calls = []\<rparr>
     = (Inr (Mapping [(Channel ''X'', [\<lparr>span = (12, 18), dt = 1\<rparr>])]),
        \<lparr>buf = \<lparr>channels = [Channel ''X''], data = [(Channel ''X'', [\<lparr>span = (10, 20), dt = 1\<rparr>])]\<rparr>,
         calls = []\<rparr>)"
    by (simp add: get_def normalise_def missing_def available_def BufferCore_init_def
        ref_collab_def ref_from_names_def ref_sub_def sl_coalesce_def seg_minus_def intersects_def
        sl_abs_def seg_abs_def channel_out_def crop_step_def ref_crop_def ref_size_def
        ref_coalesce_def get_return_def Let_def)
  ultimately show ?thesis by blast
qed

text \<open>
  C1. Let the buffer have at least one channel and hold data for each of its
  channels, and let \<open>get\<close> be asked for a segment list. The missing ranges are
  the requested segments minus the intersection, folded over the channels of
  the buffer, of the segments each channel has data for, and \<open>get\<close> acts on
  exactly them: with \<open>fetch=True\<close> and a missing set of non-zero duration the
  world after the call is the world the loop of lines 116-119 leaves when run
  over the missing ranges, the first of them is fetched in any case, and all of
  them are fetched, each once, in their order and with the channels of the
  buffer, when the fetcher fails on none; in every case the calls \<open>get\<close> makes
  are for an initial part of the missing ranges. When no range is missing \<open>get\<close>
  makes no call to the fetcher and leaves the buffer as it was, also with
  \<open>fetch=True\<close>.
\<close>

theorem get_missing_no_fetch:
  assumes "channels (buf w) = c # cs"
    and "\<forall>k \<in> set (c # cs). map_of (data (buf w)) k \<noteq> None"
    and "normalise arg = Some segs"
    and "new = sl_sub L segs
           (foldl (sl_and L) (s_segments L (the (map_of (data (buf w)) c)))
              (map (\<lambda>k. s_segments L (the (map_of (data (buf w)) k))) cs))"
  shows "missing L (buf w) segs = Inr new
    \<and> snd (get L arg do_fetch w) = (if do_fetch \<and> sl_abs new \<noteq> 0 then snd (fill L new w) else w)
    \<and> (\<exists>n. (do_fetch \<and> sl_abs new \<noteq> 0 \<longrightarrow> 0 < n) \<and>
            calls (snd (get L arg do_fetch w)) =
              calls w @ map (\<lambda>seg. (c # cs, fst seg, snd seg)) (take n new))
    \<and> (do_fetch \<and> sl_abs new \<noteq> 0
         \<and> (\<forall>seg \<in> set new. \<exists>d. fetch L (c # cs) (fst seg) (snd seg) = Inr d) \<longrightarrow>
        calls (snd (get L arg do_fetch w)) =
          calls w @ map (\<lambda>seg. (c # cs, fst seg, snd seg)) new)
    \<and> (new = [] \<longrightarrow> snd (get L arg do_fetch w) = w)"
proof -
  have m: "missing L (buf w) segs = Inr new"
    using available_fold [OF assms(1,2), of L] assms(4) by (simp add: missing_def)
  have s: "snd (get L arg do_fetch w) = (if do_fetch \<and> sl_abs new \<noteq> 0 then snd (fill L new w) else w)"
    using m assms(3) by (simp add: get_def split: sum.split prod.split)
  have c: "\<exists>n. (do_fetch \<and> sl_abs new \<noteq> 0 \<longrightarrow> 0 < n) \<and>
            calls (snd (get L arg do_fetch w)) =
              calls w @ map (\<lambda>seg. (c # cs, fst seg, snd seg)) (take n new)"
  proof (cases "do_fetch \<and> sl_abs new \<noteq> 0")
    case True
    then have "new \<noteq> []" by (simp add: sl_abs_nonzero_nonempty)
    then show ?thesis using True s fill_calls_pos [of new L w] assms(1) by simp
  next
    case False
    then have "calls (snd (get L arg do_fetch w)) =
             calls w @ map (\<lambda>seg. (c # cs, fst seg, snd seg)) (take 0 new)"
      using s by auto
    then show ?thesis using False by blast
  qed
  have a: "do_fetch \<and> sl_abs new \<noteq> 0
         \<and> (\<forall>seg \<in> set new. \<exists>d. fetch L (c # cs) (fst seg) (snd seg) = Inr d) \<longrightarrow>
        calls (snd (get L arg do_fetch w)) =
          calls w @ map (\<lambda>seg. (c # cs, fst seg, snd seg)) new"
  proof (intro impI)
    assume h: "do_fetch \<and> sl_abs new \<noteq> 0
         \<and> (\<forall>seg \<in> set new. \<exists>d. fetch L (c # cs) (fst seg) (snd seg) = Inr d)"
    then have "\<forall>seg \<in> set new. \<exists>d. fetch L (channels (buf w)) (fst seg) (snd seg) = Inr d"
      using assms(1) by simp
    from fill_calls_all [OF this]
    show "calls (snd (get L arg do_fetch w)) =
          calls w @ map (\<lambda>seg. (c # cs, fst seg, snd seg)) new"
      using s h assms(1) by simp
  qed
  have e: "new = [] \<longrightarrow> snd (get L arg do_fetch w) = w"
    using s by (simp add: sl_abs_def)
  from m s c a e show ?thesis by blast
qed

theorem get_missing_no_fetch_witness:
  "missing (ref_collab full_fetch)
     \<lparr>channels = [Channel ''X'', Channel ''Y''],
      data = [(Channel ''X'', [\<lparr>span = (0, 20), dt = 1\<rparr>]),
              (Channel ''Y'', [\<lparr>span = (10, 30), dt = 1\<rparr>])]\<rparr> [(0, 30)] = Inr [(0, 10), (20, 30)]
   \<and> calls (snd (get (ref_collab full_fetch) (SegList [(0, 30)]) True
        \<lparr>buf = \<lparr>channels = [Channel ''X'', Channel ''Y''],
                data = [(Channel ''X'', [\<lparr>span = (0, 20), dt = 1\<rparr>]),
                        (Channel ''Y'', [\<lparr>span = (10, 30), dt = 1\<rparr>])]\<rparr>,
         calls = []\<rparr>))
     = [([Channel ''X'', Channel ''Y''], 0, 10), ([Channel ''X'', Channel ''Y''], 20, 30)]
   \<and> snd (get (ref_collab full_fetch) (SegList [(12, 18)]) True
        \<lparr>buf = \<lparr>channels = [Channel ''X'', Channel ''Y''],
                data = [(Channel ''X'', [\<lparr>span = (0, 20), dt = 1\<rparr>]),
                        (Channel ''Y'', [\<lparr>span = (10, 30), dt = 1\<rparr>])]\<rparr>,
         calls = []\<rparr>)
     = \<lparr>buf = \<lparr>channels = [Channel ''X'', Channel ''Y''],
               data = [(Channel ''X'', [\<lparr>span = (0, 20), dt = 1\<rparr>]),
                       (Channel ''Y'', [\<lparr>span = (10, 30), dt = 1\<rparr>])]\<rparr>,
        calls = []\<rparr>"
proof -
  let ?L = "ref_collab full_fetch"
  let ?w = "\<lparr>buf = \<lparr>channels = [Channel ''X'', Channel ''Y''],
                data = [(Channel ''X'', [\<lparr>span = (0, 20), dt = 1\<rparr>]),
                        (Channel ''Y'', [\<lparr>span = (10, 30), dt = 1\<rparr>])]\<rparr>,
         calls = []\<rparr>"
  have h1: "channels (buf ?w) = Channel ''X'' # [Channel ''Y'']" by simp
  have h2: "\<forall>k \<in> set (Channel ''X'' # [Channel ''Y'']). map_of (data (buf ?w)) k \<noteq> None" by simp
  have h3: "normalise (SegList [(12, 18)]) = Some [(12, 18)]" by (simp add: normalise_def)
  have h4: "[] = sl_sub ?L [(12, 18)]
           (foldl (sl_and ?L) (s_segments ?L (the (map_of (data (buf ?w)) (Channel ''X''))))
              (map (\<lambda>k. s_segments ?L (the (map_of (data (buf ?w)) k))) [Channel ''Y'']))"
    by (simp add: ref_collab_def ref_sub_def ref_and_def sl_coalesce_def seg_minus_def intersects_def)
  have g3: "normalise (SegList [(0, 30)]) = Some [(0, 30)]" by (simp add: normalise_def)
  have g4: "[(0, 10), (20, 30)] = sl_sub ?L [(0, 30)]
           (foldl (sl_and ?L) (s_segments ?L (the (map_of (data (buf ?w)) (Channel ''X''))))
              (map (\<lambda>k. s_segments ?L (the (map_of (data (buf ?w)) k))) [Channel ''Y'']))"
    by (simp add: ref_collab_def ref_sub_def ref_and_def sl_coalesce_def seg_minus_def intersects_def)
  have g5: "sl_abs [(0, 10), (20, 30)] \<noteq> 0" by (simp add: sl_abs_def seg_abs_def)
  have g6: "\<forall>seg \<in> set [(0, 10), (20, 30)].
      \<exists>d. fetch ?L (Channel ''X'' # [Channel ''Y'']) (fst seg) (snd seg) = Inr d"
    by (simp add: ref_collab_def full_fetch_def)
  note empty = get_missing_no_fetch [OF h1 h2 h3 h4, of True]
  note gaps = get_missing_no_fetch [OF h1 h2 g3 g4, of True]
  have p1: "missing ?L (buf ?w) [(0, 30)] = Inr [(0, 10), (20, 30)]"
    by (rule gaps [THEN conjunct1])
  have p2: "calls (snd (get ?L (SegList [(0, 30)]) True ?w)) =
      calls ?w @ map (\<lambda>seg. (Channel ''X'' # [Channel ''Y''], fst seg, snd seg)) [(0, 10), (20, 30)]"
    using gaps [THEN conjunct2, THEN conjunct2, THEN conjunct2, THEN conjunct1] g5 g6
    by (simp only: simp_thms)
  have p3: "snd (get ?L (SegList [(12, 18)]) True ?w) = ?w"
    using empty [THEN conjunct2, THEN conjunct2, THEN conjunct2, THEN conjunct2]
    by (simp only: simp_thms)
  show ?thesis using p1 p2 p3 by simp
qed

text \<open>
  C5. Let \<open>get\<close> be called with \<open>fetch=True\<close> and let the missing segments, of
  non-zero total duration, be \<open>pre @ post\<close>, where the fetcher succeeds on every
  segment of \<open>pre\<close> and fails on the first segment of \<open>post\<close>, if there is one.
  Then the fetcher was called once for each segment of \<open>pre\<close> and once for that
  first segment of \<open>post\<close>, in this order, each time with all the channels of
  the buffer and the bounds of the segment; the buffer holds the result of
  appending and then coalescing what each segment of \<open>pre\<close> returned, one
  segment after the other; and the failure of the fetcher is what \<open>get\<close>
  raises. Where the missing segments are in ascending order of their start, so
  are the calls.
\<close>

theorem get_fills_in_order:
  assumes "normalise arg = Some segs"
    and "missing L (buf w) segs = Inr (pre @ post)"
    and "sl_abs (pre @ post) \<noteq> 0"
    and "\<forall>seg \<in> set pre. fetch L (channels (buf w)) (fst seg) (snd seg) = Inr (res seg)"
    and "post = [] \<or> fetch L (channels (buf w)) (fst (hd post)) (snd (hd post)) = Inl e"
  shows "snd (get L arg True w) =
           w\<lparr>buf := foldl (\<lambda>b seg. coalesce L (append_buf L (res seg) b)) (buf w) pre,
             calls := calls w @ map (\<lambda>seg. (channels (buf w), fst seg, snd seg)) (pre @ take 1 post)\<rparr>
       \<and> (post \<noteq> [] \<longrightarrow> fst (get L arg True w) = Inl e)
       \<and> (sorted (map fst (pre @ post)) \<longrightarrow>
            sorted (map (\<lambda>call. fst (snd call)) (drop (length (calls w)) (calls (snd (get L arg True w))))))"
proof -
  let ?w' = "w\<lparr>buf := foldl (\<lambda>b seg. coalesce L (append_buf L (res seg) b)) (buf w) pre,
               calls := calls w @ map (\<lambda>seg. (channels (buf w), fst seg, snd seg)) pre\<rparr>"
  have f: "fill L (pre @ post) w = fill L post ?w'"
    by (rule fill_prefix [OF assms(4)])
  have a: "snd (get L arg True w) =
           w\<lparr>buf := foldl (\<lambda>b seg. coalesce L (append_buf L (res seg) b)) (buf w) pre,
             calls := calls w @ map (\<lambda>seg. (channels (buf w), fst seg, snd seg)) (pre @ take 1 post)\<rparr>
       \<and> (post \<noteq> [] \<longrightarrow> fst (get L arg True w) = Inl e)"
  proof (cases post)
    case Nil
    then have "fill L (pre @ post) w = (Inr (), ?w')" using f by simp
    then show ?thesis using assms(1,2,3) Nil
      by (simp add: get_def split: sum.split)
  next
    case (Cons bad rest)
    then have "fetch L (channels (buf w)) (fst bad) (snd bad) = Inl e"
      using assms(5) by simp
    then have "fill L (pre @ post) w =
        (Inl e, ?w'\<lparr>calls := calls ?w' @ [(channels (buf w), fst bad, snd bad)]\<rparr>)"
      using f Cons by (simp add: Let_def foldl_step_channels)
    then show ?thesis using assms(1,2,3) Cons
      by (simp add: get_def)
  qed
  have "sorted (map fst (pre @ take 1 post))" if "sorted (map fst (pre @ post))"
  proof -
    have "pre @ take 1 post = take (length pre + 1) (pre @ post)" by simp
    then show ?thesis using that sorted_wrt_take [of "(\<le>)" "map fst (pre @ post)" "length pre + 1"]
      by (simp only: take_map)
  qed
  then have "sorted (map fst (pre @ post)) \<longrightarrow>
            sorted (map (\<lambda>call. fst (snd call)) (drop (length (calls w)) (calls (snd (get L arg True w)))))"
    using a by (simp add: comp_def)
  then show ?thesis using a by blast
qed

theorem get_fills_in_order_witness:
  "get (ref_collab (failing_from 20)) (SegList [(0, 30)]) True
      \<lparr>buf = \<lparr>channels = [Channel ''X''], data = [(Channel ''X'', [\<lparr>span = (10, 20), dt = 1\<rparr>])]\<rparr>,
       calls = []\<rparr>
   = (Inl (FetchError ''no data''),
      \<lparr>buf = \<lparr>channels = [Channel ''X''], data = [(Channel ''X'', [\<lparr>span = (0, 20), dt = 1\<rparr>])]\<rparr>,
       calls = [([Channel ''X''], 0, 10), ([Channel ''X''], 20, 30)]\<rparr>)"
proof -
  let ?L = "ref_collab (failing_from 20)"
  let ?w = "\<lparr>buf = \<lparr>channels = [Channel ''X''], data = [(Channel ''X'', [\<lparr>span = (10, 20), dt = 1\<rparr>])]\<rparr>,
       calls = []\<rparr>"
  let ?res = "\<lambda>seg. [(Channel ''X'', [\<lparr>span = (fst seg, snd seg), dt = 1\<rparr>])]"
  have h1: "normalise (SegList [(0, 30)]) = Some [(0, 30)]" by (simp add: normalise_def)
  have h2: "missing ?L (buf ?w) [(0, 30)] = Inr ([(0, 10)] @ [(20, 30)])"
    by (simp add: missing_def available_def ref_collab_def ref_sub_def sl_coalesce_def
        seg_minus_def intersects_def)
  have h3: "sl_abs ([(0, 10)] @ [(20, 30)]) \<noteq> 0" by (simp add: sl_abs_def seg_abs_def)
  have h4: "\<forall>seg \<in> set [(0, 10)]. fetch ?L (channels (buf ?w)) (fst seg) (snd seg) = Inr (?res seg)"
    by (simp add: ref_collab_def failing_from_def full_fetch_def)
  have h5: "[(20, 30)] = [] \<or>
      fetch ?L (channels (buf ?w)) (fst (hd [(20, 30)])) (snd (hd [(20, 30)])) = Inl (FetchError ''no data'')"
    by (simp add: ref_collab_def failing_from_def)
  have c: "coalesce ?L (append_buf ?L (?res (0, 10)) (buf ?w))
      = \<lparr>channels = [Channel ''X''], data = [(Channel ''X'', [\<lparr>span = (0, 20), dt = 1\<rparr>])]\<rparr>"
    by (simp add: coalesce_def append_buf_def ref_collab_def ref_dict_append_def ref_coalesce_def)
  show ?thesis
    using get_fills_in_order [OF h1 h2 h3 h4 h5] c
    by (simp add: prod_eq_iff)
qed

subsection \<open>Construction and the derived segments\<close>

text \<open>
  C9. On a freshly constructed buffer the property \<open>segments\<close> returns the
  empty segment list and does not raise: the TypeError of folding over no
  values is caught.
\<close>

theorem segments_fresh_buffer_empty: "segments L (BufferCore_init L chans) = Inr []"
  by (simp add: segments_def BufferCore_init_def Let_def)

text \<open>
  C7, as stated, fails: after the construction from the name X the data mapping
  has no entry for the channel X.
\<close>

theorem init_entry_per_channel_counterexample:
  "\<not> (\<forall>c \<in> set (channels (BufferCore_init (ref_collab full_fetch) (Str ''X''))).
        map_of (data (BufferCore_init (ref_collab full_fetch) (Str ''X''))) c \<noteq> None)"
  by (simp add: BufferCore_init_def Let_def ref_collab_def ref_from_names_def)

text \<open>
  C7, amended. The construction resolves the names through the channel
  resolver, a single string standing for the list of that one string, and
  initialises the data mapping empty: immediately after the construction no
  channel has an entry in the data mapping.
\<close>

theorem init_resolves_names_and_empty_data:
  "channels (BufferCore_init L (Strs names)) = from_names L (map Name names)
   \<and> BufferCore_init L (Str s) = BufferCore_init L (Strs [s])
   \<and> data (BufferCore_init L chans) = []
   \<and> map_of (data (BufferCore_init L chans)) c = None"
  by (simp add: BufferCore_init_def Let_def)

subsection \<open>add_channels, start and end\<close>

text \<open>
  C3, as the code has it. \<open>add_channels\<close> leaves the data mapping exactly as it
  was: what \<open>fetch\<close> returns at line 255 is dropped, so no new channel gets any
  data. On a buffer that covers [0, 10) for its channel X, adding Y makes the one
  call to the fetcher for Y over [0, 10), and Y has no data afterwards.
\<close>

theorem add_channels_drops_fetched_data:
  "data (buf (snd (add_channels L names w))) = data (buf w)
   \<and> add_channels (ref_collab full_fetch) [''Y'']
        \<lparr>buf = \<lparr>channels = [Channel ''X''], data = [(Channel ''X'', [\<lparr>span = (0, 10), dt = 1\<rparr>])]\<rparr>,
         calls = []\<rparr>
     = (Inr (),
        \<lparr>buf = \<lparr>channels = [Channel ''X'', Channel ''Y''],
                data = [(Channel ''X'', [\<lparr>span = (0, 10), dt = 1\<rparr>])]\<rparr>,
         calls = [([Channel ''Y''], 0, 10)]\<rparr>)"
proof -
  have "data (buf (snd (add_channels L names w))) = data (buf w)"
    by (simp add: add_channels_def Let_def fetch_each_data split: prod.split sum.split)
  moreover have "add_channels (ref_collab full_fetch) [''Y'']
        \<lparr>buf = \<lparr>channels = [Channel ''X''], data = [(Channel ''X'', [\<lparr>span = (0, 10), dt = 1\<rparr>])]\<rparr>,
         calls = []\<rparr>
     = (Inr (),
        \<lparr>buf = \<lparr>channels = [Channel ''X'', Channel ''Y''],
                data = [(Channel ''X'', [\<lparr>span = (0, 10), dt = 1\<rparr>])]\<rparr>,
         calls = [([Channel ''Y''], 0, 10)]\<rparr>)"
    by (simp add: add_channels_def segments_def ref_collab_def ref_from_names_def ref_span_def
        sl_extent_def full_fetch_def Let_def)
  ultimately show ?thesis by blast
qed

text \<open>
  C2, as the code has it. An assignment to \<open>start\<close> or to \<open>end\<close> is refused with
  AttributeError for every time and every buffer: both names are bound to
  properties without a setter. No warning is issued, no ValueError is raised, no
  call to the fetcher is made and the buffer does not change; so it is for the
  buffer of extent [100, 200) and the new end 300.
\<close>

theorem assign_start_end_refused:
  "assign_attr L ''start'' t w = (Inl AttributeError, w)
   \<and> assign_attr L ''end'' t w = (Inl AttributeError, w)
   \<and> extent (ref_collab full_fetch)
        \<lparr>channels = [Channel ''X''], data = [(Channel ''X'', [\<lparr>span = (100, 200), dt = 1\<rparr>])]\<rparr>
      = Inr (100, 200)
   \<and> assign_attr (ref_collab full_fetch) ''end'' 300
        \<lparr>buf = \<lparr>channels = [Channel ''X''], data = [(Channel ''X'', [\<lparr>span = (100, 200), dt = 1\<rparr>])]\<rparr>,
         calls = []\<rparr>
      = (Inl AttributeError,
         \<lparr>buf = \<lparr>channels = [Channel ''X''], data = [(Channel ''X'', [\<lparr>span = (100, 200), dt = 1\<rparr>])]\<rparr>,
          calls = []\<rparr>)"
  by (simp add: assign_attr_def class_attr_def class_body_def property_def
      extent_def segments_def ref_collab_def ref_span_def sl_extent_def Segment_def)

subsection \<open>coalesce\<close>

text \<open>
  C8. \<open>coalesce\<close> is idempotent: for every buffer, coalescing twice leaves the
  same per-channel series content as coalescing once, given that the coalesce
  of the series container, which the buffer applies to every channel, is itself
  idempotent.
\<close>

theorem coalesce_idempotent:
  assumes "\<forall>s. s_coalesce L (s_coalesce L s) = s_coalesce L s"
  shows "coalesce L (coalesce L b) = coalesce L b"
  using assms by (simp add: coalesce_def case_prod_unfold)

theorem coalesce_idempotent_witness:
  "coalesce (ref_collab full_fetch) (coalesce (ref_collab full_fetch)
      \<lparr>channels = [Channel ''X''],
       data = [(Channel ''X'', [\<lparr>span = (10, 20), dt = 1\<rparr>, \<lparr>span = (0, 10), dt = 1\<rparr>])]\<rparr>)
   = \<lparr>channels = [Channel ''X''], data = [(Channel ''X'', [\<lparr>span = (0, 20), dt = 1\<rparr>])]\<rparr>"
proof -
  have h: "\<forall>s. s_coalesce (ref_collab full_fetch) (s_coalesce (ref_collab full_fetch) s)
      = s_coalesce (ref_collab full_fetch) s"
    by (simp add: ref_collab_def ref_coalesce_idem)
  have "coalesce (ref_collab full_fetch)
      \<lparr>channels = [Channel ''X''],
       data = [(Channel ''X'', [\<lparr>span = (10, 20), dt = 1\<rparr>, \<lparr>span = (0, 10), dt = 1\<rparr>])]\<rparr>
     = \<lparr>channels = [Channel ''X''], data = [(Channel ''X'', [\<lparr>span = (0, 20), dt = 1\<rparr>])]\<rparr>"
    by (simp add: coalesce_def ref_collab_def ref_coalesce_def)
  then show ?thesis
    using coalesce_idempotent [OF h, of "\<lparr>channels = [Channel ''X''],
       data = [(Channel ''X'', [\<lparr>span = (10, 20), dt = 1\<rparr>, \<lparr>span = (0, 10), dt = 1\<rparr>])]\<rparr>"]
    by simp
qed

end
